theory Spec2Isabelle
  imports Main "HOL-Library.AList" "HOL-Library.Sublist" "HOL-Library.Multiset"
begin

section \<open>JSON values\<close>

text \<open>
  Request bodies are parsed JSON documents. Numbers are kept as integers (the requests
  of the test-suite only use integers); an object is an association list in which the
  first binding of a key is the one that is read.
\<close>

datatype json =
    JNull
  | JBool bool
  | JNum int
  | JStr string
  | JArr "json list"
  | JObj "(string \<times> json) list"

section \<open>\<open>server/api/parsing.js\<close>\<close>

text \<open>
  A JavaScript value handed to a record is either a JSON value of the request or the
  \<open>Date\<close> that \<open>moment(value).toDate()\<close> builds from one.
\<close>

datatype jsvalue = Json json | Date json

fun moment_toDate :: "jsvalue \<Rightarrow> jsvalue" where
  "moment_toDate (Json j) = Date j"
| "moment_toDate (Date j) = Date j"

text \<open>
  The source object and the record's attributes are maps from property names to values:
  \<open>_.has(source, p)\<close> is \<open>source p \<noteq> None\<close>, \<open>source[p]\<close> is the value
  stored there and \<open>record.set(k, v)\<close> is \<open>record(k \<mapsto> v)\<close>. Property names are the plain
  names the callers pass (\<open>'type'\<close>, \<open>'version'\<close>, \<open>'occurredAt'\<close>); lodash's path syntax
  for names holding \<open>.\<close> or \<open>[\<close> is outside the model.
\<close>

type_synonym 'v attributes = "string \<rightharpoonup> 'v"

text \<open>A value of a properties map: a source property name, or a function of the source.\<close>

datatype 'v source_property =
    Prop string
  | Fn "'v attributes \<Rightarrow> 'v"

text \<open>
  A parser function \<open>(source, record) => ...\<close> changes the record it is given and
  returns a value; the flag says that the value returned is \<open>false\<close>, on which
  \<open>_.each\<close> ends its iteration.
\<close>

type_synonym 'v parse_function = "'v attributes \<Rightarrow> 'v attributes \<Rightarrow> 'v attributes \<times> bool"

text \<open>
  The argument kinds \<open>createPropertiesParser\<close> tells apart: a function, a plain
  object, a string, an array of strings, anything else.
\<close>

datatype 'v parser =
    ParserFunction "'v parse_function"
  | ParserObject "(string \<times> 'v source_property) list"
  | ParserString string
  | ParserArray "string list"
  | ParserOther

text \<open>
  The regular expression \<open>/.At$/\<close>: the name ends in \<open>At\<close>, and the character before
  it is one that \<open>.\<close> matches, that is, not a line terminator. A \<open>char\<close> stands for a
  UTF-16 code unit below \<open>U+0100\<close>; of the four line terminators of JavaScript (LF, CR,
  \<open>U+2028\<close>, \<open>U+2029\<close>) the first two are in that range.
\<close>

definition line_terminator :: "char \<Rightarrow> bool" where
  "line_terminator c \<longleftrightarrow> c = CHR 0x0A \<or> c = CHR 0x0D"

definition matches_At :: "string \<Rightarrow> bool" where
  "matches_At sourceProperty \<longleftrightarrow>
     (case rev sourceProperty of
        t # a # c # _ \<Rightarrow> t = CHR ''t'' \<and> a = CHR ''A'' \<and> \<not> line_terminator c
      | _ \<Rightarrow> False)"

text \<open>
  \<open>memo[key] = value\<close> on a JavaScript object replaces the value of a key that is already
  there and adds the key otherwise: \<open>AList.update\<close>. \<open>object_of\<close> builds the object an
  object literal or the \<open>_.reduce\<close> of \<open>createPropertiesParser\<close> builds.
\<close>

definition object_of :: "(string \<times> 'a) list \<Rightarrow> (string \<times> 'a) list" where
  "object_of kvs = foldl (\<lambda>memo (k, v). AList.update k v memo) [] kvs"

text \<open>
  The function \<open>createPropertiesParser\<close> returns for a properties map.
  \<open>_.each(propertiesMap, ...)\<close> visits every key once; the keys are distinct, so the
  order of the visit does not show in the record.
\<close>

definition set_property ::
  "('v \<Rightarrow> 'v) \<Rightarrow> 'v attributes \<Rightarrow> string \<times> 'v source_property \<Rightarrow> 'v attributes \<Rightarrow> 'v attributes" where
  "set_property toDate source entry record =
     (case entry of (recordProperty, sourceProperty) \<Rightarrow>
        (case sourceProperty of
           Fn f \<Rightarrow> record(recordProperty \<mapsto> f source)
         | Prop p \<Rightarrow>
             (case source p of
                None \<Rightarrow> record
              | Some v \<Rightarrow> record(recordProperty \<mapsto> (if matches_At p then toDate v else v)))))"

definition parse_properties ::
  "('v \<Rightarrow> 'v) \<Rightarrow> (string \<times> 'v source_property) list \<Rightarrow> 'v attributes \<Rightarrow> 'v attributes \<Rightarrow> 'v attributes" where
  "parse_properties toDate propertiesMap source record =
     fold (set_property toDate source) propertiesMap record"

text \<open>
  The function returned for a properties map has no \<open>return\<close> statement: it never
  returns \<open>false\<close>.
\<close>

definition properties_parser ::
  "('v \<Rightarrow> 'v) \<Rightarrow> (string \<times> 'v source_property) list \<Rightarrow> 'v parse_function" where
  "properties_parser toDate propertiesMap source record =
     (parse_properties toDate propertiesMap source record, False)"

text \<open>
  \<open>createPropertiesParser\<close>. \<open>underscore\<close> is \<open>inflection.underscore\<close> and \<open>toDate\<close> is
  \<open>moment(value).toDate()\<close>, both of libraries outside the repository. The \<open>throw\<close> is
  the \<open>Inl\<close> result.
\<close>

definition createPropertiesParser ::
  "('v \<Rightarrow> 'v) \<Rightarrow> (string \<Rightarrow> string) \<Rightarrow> 'v parser \<Rightarrow> string + 'v parse_function" where
  "createPropertiesParser toDate underscore parser =
     (case parser of
        ParserFunction f \<Rightarrow> Inr f
      | ParserObject m \<Rightarrow> Inr (properties_parser toDate (object_of m))
      | ParserString s \<Rightarrow> Inr (properties_parser toDate (object_of [(underscore s, Prop s)]))
      | ParserArray ps \<Rightarrow>
          Inr (properties_parser toDate
                 (object_of (map (\<lambda>property. (underscore property, Prop property)) ps)))
      | ParserOther \<Rightarrow> Inl ''Parsing arguments must be a string, array, object or function'')"

text \<open>\<open>_.map\<close> over a function that may throw: the first error ends the map.\<close>

fun map_throwing :: "('a \<Rightarrow> 'e + 'b) \<Rightarrow> 'a list \<Rightarrow> 'e + 'b list" where
  "map_throwing f [] = Inr []"
| "map_throwing f (x # xs) =
     (case f x of
        Inl e \<Rightarrow> Inl e
      | Inr y \<Rightarrow> (case map_throwing f xs of Inl e \<Rightarrow> Inl e | Inr ys \<Rightarrow> Inr (y # ys)))"

text \<open>
  \<open>_.each(propertiesParsers, parser => parser(source, record))\<close>: the parsers run in
  order, until one returns \<open>false\<close>.
\<close>

fun each_parser :: "'v parse_function list \<Rightarrow> 'v attributes \<Rightarrow> 'v attributes \<Rightarrow> 'v attributes" where
  "each_parser [] source record = record"
| "each_parser (parser # parsers) source record =
     (case parser source record of
        (record', returned_false) \<Rightarrow>
          if returned_false then record' else each_parser parsers source record')"

text \<open>\<open>parseJsonIntoRecord\<close>: all parsers are created first, then run.\<close>

definition parseJsonIntoRecord ::
  "('v \<Rightarrow> 'v) \<Rightarrow> (string \<Rightarrow> string) \<Rightarrow> 'v attributes \<Rightarrow> 'v attributes \<Rightarrow> 'v parser list \<Rightarrow>
   string + 'v attributes" where
  "parseJsonIntoRecord toDate underscore source record properties =
     (case map_throwing (createPropertiesParser toDate underscore) properties of
        Inl e \<Rightarrow> Inl e
      | Inr propertiesParsers \<Rightarrow> Inr (each_parser propertiesParsers source record))"

text \<open>The source property names a string or array specifier stands for.\<close>

fun parser_names :: "'v parser \<Rightarrow> string list" where
  "parser_names (ParserString s) = [s]"
| "parser_names (ParserArray ps) = ps"
| "parser_names _ = []"

fun names_only :: "'v parser \<Rightarrow> bool" where
  "names_only (ParserString s) = True"
| "names_only (ParserArray ps) = True"
| "names_only _ = False"

text \<open>
  What the record may hold at \<open>k\<close> after parsing: what it held before, or the value of a
  present source property whose underscored name is \<open>k\<close>, as a \<open>Date\<close> when the name
  matches \<open>/.At$/\<close> and as it is otherwise.
\<close>

definition set_from ::
  "('v \<Rightarrow> 'v) \<Rightarrow> (string \<Rightarrow> string) \<Rightarrow> 'v attributes \<Rightarrow> string list \<Rightarrow> string \<Rightarrow> 'v option \<Rightarrow> bool" where
  "set_from toDate underscore source names k result \<longleftrightarrow>
     list_ex (\<lambda>p. underscore p = k \<and>
                  (case source p of
                     None \<Rightarrow> False
                   | Some v \<Rightarrow> result = Some (if matches_At p then toDate v else v))) names"

text \<open>A simple stand-in for \<open>inflection.underscore\<close> on the names of the witnesses.\<close>

definition upper_char :: "char \<Rightarrow> bool" where
  "upper_char c \<longleftrightarrow> 65 \<le> (of_char c :: nat) \<and> (of_char c :: nat) \<le> 90"

fun snake :: "string \<Rightarrow> string" where
  "snake [] = []"
| "snake (c # cs) =
     (if upper_char c then CHR ''_'' # char_of (of_char c + (32::nat)) # snake cs
      else c # snake cs)"

section \<open>\<open>server/models/participant.js\<close>\<close>

record participant =
  api_id :: "string option"
  excursion_id :: "int option"

text \<open>
  \<open>randomString.generate({ length: 2, charset: 'alphanumeric', capitalization: 'lowercase' })\<close>:
  the library lower-cases the alphanumeric character set, drops the duplicates and picks
  one character of it per random number. The random numbers are an argument.
\<close>

definition lowercase_alphanumeric :: string where
  "lowercase_alphanumeric = ''0123456789abcdefghijklmnopqrstuvwxyz''"

definition randomString_generate :: "nat list \<Rightarrow> string" where
  "randomString_generate rs =
     map (\<lambda>r. lowercase_alphanumeric ! (r mod length lowercase_alphanumeric)) rs"

text \<open>
  \<open>new Participant({ api_id: a, excursion_id: e }).fetch()\<close>: the first row of the table
  with these two attributes, or \<open>null\<close>.
\<close>

definition fetch_participant :: "participant list \<Rightarrow> string \<Rightarrow> int \<Rightarrow> participant option" where
  "fetch_participant table a e = find (\<lambda>p. api_id p = Some a \<and> excursion_id p = Some e) table"

text \<open>
  \<open>generateUniqueApiId\<close> draws again for as long as the drawn identifier is taken, so it
  need not return: the result \<open>None\<close> is the promise that never resolves. \<open>rnd k\<close> are the
  two random numbers of the \<open>k\<close>-th draw.
\<close>

partial_function (option) generateUniqueApiId ::
  "(nat \<Rightarrow> nat \<times> nat) \<Rightarrow> participant list \<Rightarrow> int \<Rightarrow> nat \<Rightarrow> string option" where
  "generateUniqueApiId rnd table excursionId k =
     (let newApiId = randomString_generate [fst (rnd k), snd (rnd k)] in
      case fetch_participant table newApiId excursionId of
        Some existingParticipant \<Rightarrow> generateUniqueApiId rnd table excursionId (Suc k)
      | None \<Rightarrow> Some newApiId)"

declare generateUniqueApiId.simps [code]

text \<open>
  What \<open>generateApiId\<close> returns: \<open>undefined\<close>, or the promise of \<open>generateUniqueApiId\<close>.
  \<open>excursionId ? ... : undefined\<close> takes the first branch for a number other than 0.
\<close>

datatype 'a returned = Undefined | Promise "'a option"

definition generateApiId ::
  "(nat \<Rightarrow> nat \<times> nat) \<Rightarrow> participant list \<Rightarrow> participant \<Rightarrow> string returned" where
  "generateApiId rnd table this =
     (case excursion_id this of
        None \<Rightarrow> Undefined
      | Some excursionId \<Rightarrow>
          if excursionId \<noteq> 0 then Promise (generateUniqueApiId rnd table excursionId 0)
          else Undefined)"

definition lowercase_alphanumeric_char :: "char \<Rightarrow> bool" where
  "lowercase_alphanumeric_char c \<longleftrightarrow>
     (48 \<le> (of_char c :: nat) \<and> (of_char c :: nat) \<le> 57) \<or>
     (97 \<le> (of_char c :: nat) \<and> (of_char c :: nat) \<le> 122)"

section \<open>The validation engine\<close>

subsection \<open>Field locators\<close>

text \<open>
  Modelled from the spec: the field locator of the validation library
  (\<open>server/api/validate.js\<close> and the library it wraps are not among the sources). A
  path is a sequence of string and integer segments; string segments index object keys,
  integer segments index arrays. \<open>pointer\<close> is the location string of a FieldError,
  such as \<open>/themes/0/name\<close>.
\<close>

datatype seg = Key string | Idx nat

type_synonym path = "seg list"

definition digit_char :: "nat \<Rightarrow> char" where
  "digit_char d = ''0123456789'' ! d"

fun show_nat :: "nat \<Rightarrow> string" where
  "show_nat n =
     (if n < 10 then [digit_char n] else show_nat (n div 10) @ [digit_char (n mod 10)])"

declare show_nat.simps [simp del]

fun seg_string :: "seg \<Rightarrow> string" where
  "seg_string (Key k) = k"
| "seg_string (Idx i) = show_nat i"

definition pointer :: "path \<Rightarrow> string" where
  "pointer p = concat (map (\<lambda>s. CHR ''/'' # seg_string s) p)"

fun child :: "json \<Rightarrow> seg \<Rightarrow> json option" where
  "child (JObj kvs) (Key k) = map_of kvs k"
| "child (JArr xs) (Idx i) = (if i < length xs then Some (xs ! i) else None)"
| "child _ _ = None"

text \<open>
  Modelled from the spec: reading a location. The result \<open>None\<close> is the path that does
  not exist in the document (\<open>valueSet = false\<close>); a path that exists with the value
  \<open>null\<close> reads as \<open>Some JNull\<close>.
\<close>

fun json_get :: "json \<Rightarrow> path \<Rightarrow> json option" where
  "json_get j [] = Some j"
| "json_get j (s # p) = (case child j s of None \<Rightarrow> None | Some j' \<Rightarrow> json_get j' p)"

text \<open>
  Modelled from the spec: writing a value at a location, and removing a location. A
  write below a key that is missing creates the objects on the way; a write or a removal
  that does not fit the document (a key into an array, an index out of range) leaves it
  as it is.
\<close>

fun json_put :: "path \<Rightarrow> json \<Rightarrow> json \<Rightarrow> json" where
  "json_put [] v j = v"
| "json_put (Key k # p) v (JObj kvs) =
     JObj (AList.update k (json_put p v (case map_of kvs k of Some x \<Rightarrow> x | None \<Rightarrow> JObj [])) kvs)"
| "json_put (Idx i # p) v (JArr xs) =
     (if i < length xs then JArr (xs[i := json_put p v (xs ! i)]) else JArr xs)"
| "json_put (s # p) v j = j"

fun json_del :: "path \<Rightarrow> json \<Rightarrow> json" where
  "json_del [] j = j"
| "json_del [Key k] (JObj kvs) = JObj (AList.delete k kvs)"
| "json_del (Key k # p) (JObj kvs) =
     (case map_of kvs k of
        None \<Rightarrow> JObj kvs
      | Some x \<Rightarrow> JObj (AList.update k (json_del p x) kvs))"
| "json_del (Idx i # p) (JArr xs) =
     (if i < length xs \<and> p \<noteq> [] then JArr (xs[i := json_del p (xs ! i)]) else JArr xs)"
| "json_del (s # p) j = j"

datatype mutation = Put path json | Del path

fun apply_write :: "mutation \<Rightarrow> json \<Rightarrow> json" where
  "apply_write (Put p v) j = json_put p v j"
| "apply_write (Del p) j = json_del p j"

text \<open>
  An independent reading of ``the path is present in the document'', by the shape of
  the document.
\<close>

inductive present :: "json \<Rightarrow> path \<Rightarrow> bool" where
  present_here: "present j []"
| present_key: "map_of kvs k = Some v \<Longrightarrow> present v p \<Longrightarrow> present (JObj kvs) (Key k # p)"
| present_idx: "i < length xs \<Longrightarrow> present (xs ! i) p \<Longrightarrow> present (JArr xs) (Idx i # p)"

subsection \<open>Errors and contexts\<close>

text \<open>
  Modelled from the spec: FieldError (section 3). \<open>etype\<close> is the attribute \<open>type\<close>,
  always \<open>json\<close>; \<open>val\<close> is the attribute \<open>value\<close>, \<open>None\<close> when the error has
  none; \<open>extras\<close> are the attributes of the validator (\<open>types\<close>, \<open>minLength\<close>, ...).
\<close>

record field_error =
  message :: string
  etype :: string
  location :: string
  validator :: string
  val :: "json option"
  valueSet :: bool
  extras :: "(string \<times> json) list"

text \<open>
  Modelled from the spec: Context (section 3). \<open>doc\<close> is the request body, \<open>root\<close>
  the location of the body item that is validated (the body itself, or one element of a
  batch), \<open>loc\<close> the field locator, \<open>tags\<close> the named values steps leave for later steps,
  \<open>errs\<close> the errors this branch has appended and \<open>seen\<close> those that were there when
  the branch was forked, \<open>writes\<close> the replacements and moves of this branch, and \<open>live\<close>
  is false once a \<open>while\<close> gate of the chain has closed. The value of the context is
  read from the document at the locator.
\<close>

record ctx =
  doc :: json
  root :: path
  loc :: path
  tags :: "(string \<times> json) list"
  seen :: "field_error list"
  errs :: "field_error list"
  writes :: "mutation list"
  live :: bool

definition cvalue :: "ctx \<Rightarrow> json option" where
  "cvalue c = json_get (doc c) (loc c)"

definition cvalueSet :: "ctx \<Rightarrow> bool" where
  "cvalueSet c \<longleftrightarrow> cvalue c \<noteq> None"

text \<open>
  Modelled from the spec: what a validator step does (section 4.2): nothing, append one
  FieldError, replace the value, move it to another location of the body item, remove
  it, or leave a named value in the context. The error gets its location, value and
  \<open>valueSet\<close> from the context.
\<close>

datatype failure = Failure string string "(string \<times> json) list"

datatype effect =
    Pass
  | Fail failure
  | Replace json
  | MoveTo path json
  | Remove
  | Tag string json

fun field_error_of :: "ctx \<Rightarrow> failure \<Rightarrow> field_error" where
  "field_error_of c (Failure name text attributes) =
     \<lparr>message = text, etype = ''json'', location = pointer (loc c), validator = name,
      val = cvalue c, valueSet = cvalueSet c, extras = attributes\<rparr>"

definition write_doc :: "mutation \<Rightarrow> ctx \<Rightarrow> ctx" where
  "write_doc w c = c\<lparr>doc := apply_write w (doc c), writes := writes c @ [w]\<rparr>"

fun apply_effect :: "effect \<Rightarrow> ctx \<Rightarrow> ctx" where
  "apply_effect Pass c = c"
| "apply_effect (Fail f) c = c\<lparr>errs := errs c @ [field_error_of c f]\<rparr>"
| "apply_effect (Replace v) c = write_doc (Put (loc c) v) c"
| "apply_effect (MoveTo p v) c = write_doc (Del (loc c)) (write_doc (Put (root c @ p) v) c)"
| "apply_effect Remove c = write_doc (Del (loc c)) c"
| "apply_effect (Tag k v) c = c\<lparr>tags := (k, v) # tags c\<rparr>"

subsection \<open>Pipelines\<close>

text \<open>
  Modelled from the spec: the pipeline as a tagged variant (section 9) of the
  combinators of section 4.4. \<open>Validate p steps\<close> is \<open>validate(json(p), steps...)\<close>;
  the callback of \<open>each\<close> gets the context, the element and its index.
\<close>

datatype node =
    Step "ctx \<Rightarrow> effect"
  | While "ctx \<Rightarrow> bool"
  | If "ctx \<Rightarrow> bool" "node list"
  | IfElse "ctx \<Rightarrow> bool" node node
  | Series "node list"
  | Parallel "node list"
  | Validate path "node list"
  | Each "ctx \<Rightarrow> json \<Rightarrow> nat \<Rightarrow> node"

text \<open>
  Modelled from the spec: short-circuit. A chain goes on while its gate is open and no
  error stands at its location; the steps after that are skipped.
\<close>

definition error_at :: "string \<Rightarrow> field_error list \<Rightarrow> bool" where
  "error_at l es \<longleftrightarrow> list_ex (\<lambda>e. location e = l) es"

definition blocked :: "ctx \<Rightarrow> bool" where
  "blocked c \<longleftrightarrow> \<not> live c \<or> error_at (pointer (loc c)) (seen c @ errs c)"

fun chain :: "(ctx \<Rightarrow> ctx) list \<Rightarrow> ctx \<Rightarrow> ctx" where
  "chain [] c = c"
| "chain (f # fs) c = (if blocked c then c else chain fs (f c))"

definition gate :: "(ctx \<Rightarrow> bool) \<Rightarrow> ctx \<Rightarrow> ctx" where
  "gate p c = (if p c then c else c\<lparr>live := False\<rparr>)"

text \<open>
  Modelled from the spec: \<open>parallel\<close>. Every branch is forked from the context as it is
  when the combinator starts and returns its own errors and writes; they are merged in the
  order in which the branches are declared.
\<close>

definition fork :: "ctx \<Rightarrow> ctx" where
  "fork c = c\<lparr>seen := seen c @ errs c, errs := [], writes := []\<rparr>"

definition join :: "ctx \<Rightarrow> ctx list \<Rightarrow> ctx" where
  "join c rs =
     c\<lparr>doc := fold apply_write (concat (map writes rs)) (doc c),
       errs := errs c @ concat (map errs rs),
       writes := writes c @ concat (map writes rs)\<rparr>"

definition par :: "(ctx \<Rightarrow> ctx) list \<Rightarrow> ctx \<Rightarrow> ctx" where
  "par fs c = join c (map (\<lambda>f. f (fork c)) fs)"

text \<open>
  Modelled from the spec: \<open>validate(json(p), ...)\<close> runs its steps as a chain of their
  own at the location \<open>p\<close> below the current one; what the chain leaves in the document
  and in the error list stays, its locator, gate and tags end with it.
\<close>

definition enter :: "path \<Rightarrow> ctx \<Rightarrow> ctx" where
  "enter p c = c\<lparr>loc := loc c @ p, live := True\<rparr>"

definition leave :: "ctx \<Rightarrow> ctx \<Rightarrow> ctx" where
  "leave c c' = c'\<lparr>loc := loc c, live := live c, tags := tags c\<rparr>"

definition scoped :: "path \<Rightarrow> (ctx \<Rightarrow> ctx) \<Rightarrow> ctx \<Rightarrow> ctx" where
  "scoped p f c = leave c (f (enter p c))"

text \<open>
  Modelled from the spec: \<open>each\<close> builds one chain per element of an array value and
  runs them as \<open>parallel\<close> does; on another value it does nothing.
\<close>

definition each :: "(ctx \<Rightarrow> json \<Rightarrow> nat \<Rightarrow> ctx \<Rightarrow> ctx) \<Rightarrow> ctx \<Rightarrow> ctx" where
  "each f c =
     (case cvalue c of
        Some (JArr xs) \<Rightarrow> par (map (\<lambda>i. f c (xs ! i) i) [0..<length xs]) c
      | _ \<Rightarrow> c)"

text \<open>
  Modelled from the spec: the interpreter of a pipeline (section 9). \<open>series\<close> and the
  steps of \<open>if\<close> run as a chain in the context they are given; \<open>if\<close> and \<open>ifElse\<close>
  select one branch.
\<close>

primrec exec :: "node \<Rightarrow> ctx \<Rightarrow> ctx" where
  "exec (Step f) = (\<lambda>c. apply_effect (f c) c)"
| "exec (While p) = gate p"
| "exec (If p ns) = (\<lambda>c. if p c then chain (map exec ns) c else c)"
| "exec (IfElse p a b) = (\<lambda>c. if p c then exec a c else exec b c)"
| "exec (Series ns) = chain (map exec ns)"
| "exec (Parallel ns) = par (map exec ns)"
| "exec (Validate p ns) = scoped p (chain (map exec ns))"
| "exec (Each f) = each (\<lambda>c v i. exec (f c v i))"

text \<open>
  Modelled from the spec: the entry point \<open>requestBody\<close> (section 4.5). An array body
  is validated element by element, each with its locators below its index; the result is
  the body as the steps left it when no error was collected, and the errors otherwise.
\<close>

definition root_ctx :: "json \<Rightarrow> ctx" where
  "root_ctx body =
     \<lparr>doc = body, root = [], loc = [], tags = [], seen = [], errs = [], writes = [], live = True\<rparr>"

definition item :: "node \<Rightarrow> nat \<Rightarrow> ctx \<Rightarrow> ctx" where
  "item pipeline i c = exec pipeline (c\<lparr>root := [Idx i], loc := [Idx i]\<rparr>)"

definition run :: "json \<Rightarrow> node \<Rightarrow> ctx" where
  "run body pipeline =
     (case body of
        JArr items \<Rightarrow> par (map (item pipeline) [0..<length items]) (root_ctx body)
      | _ \<Rightarrow> exec pipeline (root_ctx body))"

definition requestBody :: "json \<Rightarrow> node \<Rightarrow> field_error list + json" where
  "requestBody body pipeline =
     (let c = run body pipeline in if errs c = [] then Inr (doc c) else Inl (errs c))"

subsection \<open>Validator steps and conditions\<close>

text \<open>
  Modelled from the spec: the validator steps of section 4.2 that the pipelines of the
  sources use. \<open>required\<close> fails on a missing value and, as the test-suite of the users
  API expects for \<open>firstName: null\<close>, on \<open>null\<close>. The messages are those the
  test-suites expect.
\<close>

definition required :: "ctx \<Rightarrow> effect" where
  "required c =
     (case cvalue c of
        None \<Rightarrow> Fail (Failure ''required'' ''is required'' [])
      | Some JNull \<Rightarrow> Fail (Failure ''required'' ''is required'' [])
      | Some _ \<Rightarrow> Pass)"

fun type_name :: "json \<Rightarrow> string" where
  "type_name JNull = ''null''"
| "type_name (JBool b) = ''boolean''"
| "type_name (JNum n) = ''number''"
| "type_name (JStr s) = ''string''"
| "type_name (JArr xs) = ''array''"
| "type_name (JObj kvs) = ''object''"

definition type_validator :: "string \<Rightarrow> ctx \<Rightarrow> effect" where
  "type_validator name c =
     (if map_option type_name (cvalue c) = Some name then Pass
      else Fail (Failure ''type'' (''must be of type '' @ name) [(''types'', JArr [JStr name])]))"

definition whitespace :: "char \<Rightarrow> bool" where
  "whitespace ch \<longleftrightarrow>
     ch \<in> set [CHR '' '', CHR 0x09, CHR 0x0A, CHR 0x0B, CHR 0x0C, CHR 0x0D, CHR 0xA0]"

definition notBlank :: "ctx \<Rightarrow> effect" where
  "notBlank c =
     (case cvalue c of
        Some (JStr s) \<Rightarrow>
          if list_all whitespace s then Fail (Failure ''notBlank'' ''must not be blank'' []) else Pass
      | _ \<Rightarrow> Pass)"

text \<open>
  Modelled from the spec: the resource resolver (section 4.3), with the options
  \<open>moveTo\<close> and \<open>replace\<close> of the call \<open>resource(lookup).moveTo(p).replace(f)\<close>. The
  lookup is the injected function; a record is given by its attributes. The text of the
  message is not in the sources.
\<close>

definition resource ::
  "(ctx \<Rightarrow> json option) \<Rightarrow> path option \<Rightarrow> (json \<Rightarrow> json) \<Rightarrow> ctx \<Rightarrow> effect" where
  "resource lookup moveTo replace c =
     (case lookup c of
        None \<Rightarrow> Fail (Failure ''resource'' ''not found'' [])
      | Some r \<Rightarrow>
          (case moveTo of
             None \<Rightarrow> Replace (replace r)
           | Some p \<Rightarrow> MoveTo p (replace r)))"

text \<open>
  Modelled from the spec: the conditions \<open>isSet\<close>, \<open>changed\<close> and \<open>noError\<close> of
  section 4.4. \<open>noError\<close> looks for an error at a location of the body item among all
  the errors collected so far.
\<close>

definition isSet :: "ctx \<Rightarrow> bool" where
  "isSet c \<longleftrightarrow> cvalueSet c"

definition changed :: "json \<Rightarrow> ctx \<Rightarrow> bool" where
  "changed baseline c \<longleftrightarrow> cvalue c \<noteq> Some baseline"

definition noError :: "path \<Rightarrow> ctx \<Rightarrow> bool" where
  "noError p c \<longleftrightarrow> \<not> error_at (pointer (root c @ p)) (seen c @ errs c)"

text \<open>
  Modelled from the spec: the context a chain has when it starts at the location \<open>p\<close>
  of the body: the context of \<open>validate(json(p), ...)\<close> at the top of a pipeline.
\<close>

definition field :: "json \<Rightarrow> path \<Rightarrow> ctx" where
  "field body p = (root_ctx body)\<lparr>loc := p\<rparr>"

section \<open>\<open>server/api/installations/installations.api.js\<close>\<close>

text \<open>
  \<open>validateInstallation\<close>: the pipeline the function declares. \<open>idAvailable\<close> is the
  step \<open>validations.idAvailable()\<close> of \<open>installations.validations\<close>, which is not among
  the sources.
\<close>

definition validateInstallation :: "(ctx \<Rightarrow> effect) \<Rightarrow> bool \<Rightarrow> node" where
  "validateInstallation idAvailable patchMode =
     Parallel
      [If (\<lambda>c. \<not> patchMode)
         [Validate [Key ''id'']
            [While isSet, Step (type_validator ''string''), Step notBlank, Step idAvailable]],
       Validate [Key ''properties''] [While isSet, Step (type_validator ''object'')]]"

text \<open>
  The controllers. \<open>engine\<close> is \<open>validate.requestBody\<close>: it gives the errors, and then
  the \<open>await\<close> throws and the rest of the function does not run, or the validated body.
  The policy, the record store and the serializer are not among the sources; \<open>'m\<close> is a
  model of the store and \<open>'s\<close> the store itself.
\<close>

type_synonym engine = "json \<Rightarrow> node \<Rightarrow> field_error list + json"

datatype response = Status nat json | Thrown "field_error list"

record ('m, 's) installations =
  idAvailable :: "ctx \<Rightarrow> effect"
  parse_installation :: "json \<Rightarrow> 'm option \<Rightarrow> 'm"
  save_installation :: "'m \<Rightarrow> 's \<Rightarrow> 's"
  serialize_installation :: "'m \<Rightarrow> 's \<Rightarrow> json"

definition installations_create ::
  "engine \<Rightarrow> ('m, 's) installations \<Rightarrow> json \<Rightarrow> 's \<Rightarrow> 's \<times> response" where
  "installations_create engine k body store =
     (case engine body (validateInstallation (idAvailable k) False) of
        Inl errors \<Rightarrow> (store, Thrown errors)
      | Inr body' \<Rightarrow>
          (let installation = parse_installation k body' None;
               store' = save_installation k installation store
           in (store', Status 201 (serialize_installation k installation store'))))"

definition installations_update ::
  "engine \<Rightarrow> ('m, 's) installations \<Rightarrow> 'm \<Rightarrow> json \<Rightarrow> 's \<Rightarrow> 's \<times> response" where
  "installations_update engine k installation body store =
     (case engine body (validateInstallation (idAvailable k) True) of
        Inl errors \<Rightarrow> (store, Thrown errors)
      | Inr body' \<Rightarrow>
          (let installation' = parse_installation k body' (Some installation);
               store' = save_installation k installation' store
           in (store', Status 200 (serialize_installation k installation' store'))))"

section \<open>The excursions controller (\<open>src/unnamed/part_000\<close>)\<close>

text \<open>
  \<open>validateExcursion\<close>. The helpers of \<open>server/api/validate.js\<close> and the functions
  that query the record store or read the excursion of the request are arguments:
  \<open>preloadThemes\<close> and \<open>preloadZones\<close> are the two \<open>validate.relatedArrayData\<close> steps,
  \<open>fetchTrailByHref\<close> the lookup of the trail and \<open>trailId\<close> the function
  \<open>trail => trail.get('id')\<close>, \<open>plannedAt\<close> the baseline
  \<open>excursion ? excursion.get('planned_at').toISOString() : ''\<close>, \<open>themesNewOrChanged\<close> and
  \<open>zonesNewOrChanged\<close> the two \<open>validate.newOrChanged\<close> conditions, \<open>relatedTheme\<close> and
  \<open>relatedZone\<close> the two \<open>validate.related\<close> lookups. \<open>validate.remove()\<close> is the
  step that removes the value.
\<close>

record excursion_validation =
  preloadThemes :: "ctx \<Rightarrow> effect"
  fetchTrailByHref :: "ctx \<Rightarrow> json option"
  trailId :: "json \<Rightarrow> json"
  plannedAt :: json
  themesNewOrChanged :: "ctx \<Rightarrow> bool"
  relatedTheme :: "ctx \<Rightarrow> json option"
  preloadZones :: "ctx \<Rightarrow> effect"
  zonesNewOrChanged :: "ctx \<Rightarrow> bool"
  relatedZone :: "ctx \<Rightarrow> json option"

definition validateExcursion :: "excursion_validation \<Rightarrow> bool \<Rightarrow> node" where
  "validateExcursion v patchMode =
     Series
      [Step (preloadThemes v),
       Parallel
        [Validate [Key ''trailHref'']
           [If (\<lambda>c. patchMode) [While isSet],
            Step required,
            Step (type_validator ''string''),
            Step (resource (fetchTrailByHref v) (Some [Key ''trailId'']) (trailId v))],
         Validate [Key ''name'']
           [While (\<lambda>context. cvalueSet context \<and> cvalue context \<noteq> Some JNull),
            Step (type_validator ''string'')],
         Validate [Key ''plannedAt'']
           [If (\<lambda>c. patchMode) [While isSet, While (changed (plannedAt v))],
            Step required,
            Step (type_validator ''string'')],
         Validate [Key ''themes'']
           [IfElse (themesNewOrChanged v)
              (Each (\<lambda>c element i.
                 Validate [Idx i] [Step (resource (relatedTheme v) None (\<lambda>r. r))]))
              (Step (\<lambda>c. Remove))]],
       If (noError [Key ''trailHref''])
        [Step (preloadZones v),
         Parallel
          [Validate [Key ''zoneHrefs'']
             [Step (type_validator ''array''),
              IfElse (zonesNewOrChanged v)
                (Each (\<lambda>c element i.
                   Validate [Idx i]
                     [Step (type_validator ''string''),
                      Step (resource (relatedZone v) None (\<lambda>r. r))]))
                (Step (\<lambda>c. Remove))]]]]"

text \<open>
  The controllers \<open>create\<close> and \<open>update\<close>, with \<open>saveExcursion\<close>: the excursion is
  saved, then its themes and zones are updated from the body. \<open>set_creator\<close> is
  \<open>excursion.set('creator_id', req.currentUser.get('id'))\<close>; \<open>excursion.load\<close> reads the
  store and is left out.
\<close>

record ('m, 's) excursions =
  validation :: excursion_validation
  parse_excursion :: "json \<Rightarrow> 'm option \<Rightarrow> 'm"
  set_creator :: "'m \<Rightarrow> 'm"
  save_excursion :: "'m \<Rightarrow> 's \<Rightarrow> 's"
  updateManyToMany :: "'m \<Rightarrow> string \<Rightarrow> json option \<Rightarrow> 's \<Rightarrow> 's"
  serialize_excursion :: "'m \<Rightarrow> 's \<Rightarrow> json"

definition saveExcursion :: "('m, 's) excursions \<Rightarrow> 'm \<Rightarrow> json \<Rightarrow> 's \<Rightarrow> 's" where
  "saveExcursion k excursion body store =
     updateManyToMany k excursion ''zones'' (child body (Key ''zoneHrefs''))
       (updateManyToMany k excursion ''themes'' (child body (Key ''themes''))
          (save_excursion k excursion store))"

definition excursions_create ::
  "engine \<Rightarrow> ('m, 's) excursions \<Rightarrow> json \<Rightarrow> 's \<Rightarrow> 's \<times> response" where
  "excursions_create engine k body store =
     (case engine body (validateExcursion (validation k) False) of
        Inl errors \<Rightarrow> (store, Thrown errors)
      | Inr body' \<Rightarrow>
          (let excursion = set_creator k (parse_excursion k body' None);
               store' = saveExcursion k excursion body' store
           in (store', Status 201 (serialize_excursion k excursion store'))))"

definition excursions_update ::
  "engine \<Rightarrow> ('m, 's) excursions \<Rightarrow> 'm \<Rightarrow> json \<Rightarrow> 's \<Rightarrow> 's \<times> response" where
  "excursions_update engine k excursion body store =
     (case engine body (validateExcursion (validation k) True) of
        Inl errors \<Rightarrow> (store, Thrown errors)
      | Inr body' \<Rightarrow>
          (let excursion' = parse_excursion k body' (Some excursion);
               store' = saveExcursion k excursion' body' store
           in (store', Status 200 (serialize_excursion k excursion' store'))))"

section \<open>Example collaborators\<close>

text \<open>
  Collaborators for the examples: a store with one trail and one theme, in which no
  installation identifier is taken.
\<close>

definition example_validation :: excursion_validation where
  "example_validation =
     \<lparr>preloadThemes = (\<lambda>c. Tag ''themes'' (JArr [JObj [(''name'', JStr ''birds'')]])),
      fetchTrailByHref =
        (\<lambda>c. if cvalue c = Some (JStr ''/api/trails/t1'') then Some (JObj [(''id'', JNum 7)])
              else None),
      trailId = (\<lambda>trail. case child trail (Key ''id'') of Some i \<Rightarrow> i | None \<Rightarrow> JNull),
      plannedAt = JStr [],
      themesNewOrChanged = (\<lambda>c. True),
      relatedTheme =
        (\<lambda>c. if cvalue c = Some (JStr ''birds'') then Some (JStr ''birds'') else None),
      preloadZones = (\<lambda>c. Pass),
      zonesNewOrChanged = (\<lambda>c. True),
      relatedZone = (\<lambda>c. None)\<rparr>"

definition example_installations :: "(json, json list) installations" where
  "example_installations =
     \<lparr>idAvailable = (\<lambda>c. Pass),
      parse_installation = (\<lambda>body installation. body),
      save_installation = (\<lambda>installation store. store @ [installation]),
      serialize_installation = (\<lambda>installation store. installation)\<rparr>"

definition example_excursions :: "(json, json list) excursions" where
  "example_excursions =
     \<lparr>validation = example_validation,
      parse_excursion = (\<lambda>body excursion. body),
      set_creator = (\<lambda>excursion. excursion),
      save_excursion = (\<lambda>excursion store. store @ [excursion]),
      updateManyToMany = (\<lambda>excursion relation ids store. store),
      serialize_excursion = (\<lambda>excursion store. excursion)\<rparr>"

section \<open>Predicates of the statements\<close>

text \<open>
  The value that \<open>required\<close> finds when it comes after the steps \<open>pre\<close> of the chain
  \<open>validate(json(p), pre..., required(), ...)\<close> started in the context \<open>c\<close> is missing
  or \<open>null\<close>.
\<close>

definition required_fails :: "node list \<Rightarrow> path \<Rightarrow> ctx \<Rightarrow> bool" where
  "required_fails pre p c \<longleftrightarrow>
     (let c' = chain (map exec pre) (enter p c) in cvalue c' = None \<or> cvalue c' = Some JNull)"

text \<open>A request body of the examples.\<close>

definition example_body :: json where
  "example_body =
     JObj [(''name'', JNum 42), (''themes'', JArr [JStr ''birds'', JStr ''fish''])]"

section \<open>Properties of \<open>parseJsonIntoRecord\<close>\<close>

lemma map_throwing_names_only:
  "\<forall>p \<in> set properties. names_only p \<Longrightarrow>
   map_throwing (createPropertiesParser toDate underscore) properties =
     Inr (map (\<lambda>p. properties_parser toDate
            (object_of (map (\<lambda>property. (underscore property, Prop property)) (parser_names p))))
          properties)"
proof (induction properties)
  case Nil
  then show ?case by simp
next
  case (Cons p ps)
  then have "names_only p" by simp
  then have "createPropertiesParser toDate underscore p =
      Inr (properties_parser toDate
        (object_of (map (\<lambda>property. (underscore property, Prop property)) (parser_names p))))"
    by (cases p) (simp_all add: createPropertiesParser_def)
  with Cons show ?case by simp
qed

lemma set_update_subset: "set (AList.update k v al) \<subseteq> insert (k, v) (set al)"
  by (induction al) auto

lemma object_of_entries:
  "set (foldl (\<lambda>memo (k, v). AList.update k v memo) acc kvs) \<subseteq> set acc \<union> set kvs"
proof (induction kvs arbitrary: acc)
  case Nil
  then show ?case by simp
next
  case (Cons kv kvs)
  obtain k v where kv: "kv = (k, v)" by (cases kv)
  have "set (AList.update k v acc) \<subseteq> set acc \<union> {(k, v)}"
    using set_update_subset [where k = k and v = v and al = acc] by auto
  with Cons.IH [of "AList.update k v acc"] show ?case
    unfolding kv by auto
qed

lemma object_of_subset: "set (object_of kvs) \<subseteq> set kvs"
  using object_of_entries [where acc = "[]" and kvs = kvs] by (simp add: object_of_def)

lemma set_property_cases:
  assumes "entry = (underscore p, Prop p)"
  shows "set_property toDate source entry r = r \<or>
         (\<exists>v. source p = Some v \<and>
           set_property toDate source entry r =
             r(underscore p \<mapsto> (if matches_At p then toDate v else v)))"
  using assms by (auto simp: set_property_def split: option.splits)

lemma set_from_mono:
  "set_from toDate underscore source names k res \<Longrightarrow> set names \<subseteq> set names' \<Longrightarrow>
   set_from toDate underscore source names' k res"
  unfolding set_from_def list_ex_iff by blast

lemma parse_properties_names:
  assumes "set m \<subseteq> (\<lambda>p. (underscore p, Prop p)) ` set names"
    and "r k = record k \<or> set_from toDate underscore source names k (r k)"
  shows "parse_properties toDate m source r k = record k \<or>
         set_from toDate underscore source names k (parse_properties toDate m source r k)"
  using assms
proof (induction m arbitrary: r)
  case Nil
  then show ?case by (simp add: parse_properties_def)
next
  case (Cons e m)
  from Cons.prems(1) obtain p where p: "p \<in> set names" "e = (underscore p, Prop p)"
    by auto
  let ?r = "set_property toDate source e r"
  have "?r k = record k \<or> set_from toDate underscore source names k (?r k)"
  proof -
    from set_property_cases [where underscore = underscore and p = p, OF p(2), of toDate source r]
    consider "?r = r"
      | v where "source p = Some v"
          "?r = r(underscore p \<mapsto> (if matches_At p then toDate v else v))"
      by blast
    then show ?thesis
    proof cases
      case 1
      with Cons.prems(2) show ?thesis by simp
    next
      case 2
      show ?thesis
      proof (cases "underscore p = k")
        case True
        with 2 p(1) have "set_from toDate underscore source names k (?r k)"
          by (auto simp: set_from_def list_ex_iff)
        then show ?thesis ..
      next
        case False
        with 2 Cons.prems(2) show ?thesis by simp
      qed
    qed
  qed
  moreover from Cons.prems(1) have "set m \<subseteq> (\<lambda>p. (underscore p, Prop p)) ` set names"
    by simp
  ultimately have "parse_properties toDate m source ?r k = record k \<or>
      set_from toDate underscore source names k (parse_properties toDate m source ?r k)"
    by (rule Cons.IH [rotated])
  then show ?case by (simp add: parse_properties_def)
qed

lemma run_parsers_names:
  assumes "r k = record k \<or> set_from toDate underscore source (concat (map parser_names ps)) k (r k)"
  shows "each_parser
           (map (\<lambda>p. properties_parser toDate
              (object_of (map (\<lambda>property. (underscore property, Prop property)) (parser_names p))))
            qs) source r k = record k \<or>
         set_from toDate underscore source (concat (map parser_names (ps @ qs))) k
           (each_parser
             (map (\<lambda>p. properties_parser toDate
                (object_of (map (\<lambda>property. (underscore property, Prop property)) (parser_names p))))
              qs) source r k)"
  using assms
proof (induction qs arbitrary: r ps)
  case Nil
  then show ?case by simp
next
  case (Cons q qs)
  let ?names = "concat (map parser_names (ps @ [q]))"
  let ?m = "object_of (map (\<lambda>property. (underscore property, Prop property)) (parser_names q))"
  let ?r = "parse_properties toDate ?m source r"
  have sub: "set ?m \<subseteq> (\<lambda>p. (underscore p, Prop p)) ` set ?names"
    using object_of_subset [of "map (\<lambda>property. (underscore property, Prop property)) (parser_names q)"]
    by auto
  from Cons.prems have "r k = record k \<or> set_from toDate underscore source ?names k (r k)"
    by (auto intro: set_from_mono)
  with sub have "?r k = record k \<or> set_from toDate underscore source ?names k (?r k)"
    by (rule parse_properties_names)
  from Cons.IH [of ?r "ps @ [q]", OF this] show ?case
    by (simp add: properties_parser_def)
qed

lemma object_of_keys_acc:
  "fst ` set (foldl (\<lambda>memo (k, v). AList.update k v memo) acc kvs) = fst ` set acc \<union> fst ` set kvs"
proof (induction kvs arbitrary: acc)
  case Nil
  then show ?case by simp
next
  case (Cons kv kvs)
  obtain k v where kv: "kv = (k, v)" by (cases kv)
  show ?case unfolding kv using Cons.IH [of "AList.update k v acc"]
    by (auto simp: dom_update)
qed

lemma object_of_keys: "fst ` set (object_of kvs) = fst ` set kvs"
  using object_of_keys_acc [where acc = "[]" and kvs = kvs] by (simp add: object_of_def)

text \<open>The value at k after the entries of a properties map, when p is the only name for k.\<close>

lemma parse_properties_only_name:
  assumes "\<And>e. e \<in> set m \<Longrightarrow> fst e = k \<Longrightarrow> e = (k, Prop p)"
    and "source p = Some v"
  shows "parse_properties toDate m source r k =
         (if (k, Prop p) \<in> set m then Some (if matches_At p then toDate v else v) else r k)"
  using assms(1)
proof (induction m arbitrary: r)
  case Nil
  then show ?case by (simp add: parse_properties_def)
next
  case (Cons e m)
  have IH: "parse_properties toDate m source r' k =
      (if (k, Prop p) \<in> set m then Some (if matches_At p then toDate v else v) else r' k)" for r'
    using Cons.IH Cons.prems by simp
  have step: "parse_properties toDate (e # m) source r = parse_properties toDate m source (set_property toDate source e r)"
    by (simp add: parse_properties_def)
  show ?case
  proof (cases "fst e = k")
    case True
    with Cons.prems have e: "e = (k, Prop p)" by simp
    then have "set_property toDate source e r k = Some (if matches_At p then toDate v else v)"
      using assms(2) by (simp add: set_property_def)
    with e show ?thesis unfolding step IH by simp
  next
    case False
    then have "set_property toDate source e r k = r k"
      by (cases e) (auto simp: set_property_def split: source_property.splits option.splits)
    moreover from False have "e \<noteq> (k, Prop p)" by auto
    ultimately show ?thesis unfolding step IH by simp
  qed
qed

lemma parser_only_name:
  fixes toDate :: "'v \<Rightarrow> 'v"
  assumes only: "\<And>q. q \<in> set names \<Longrightarrow> underscore q = underscore p \<Longrightarrow> q = p"
    and "source p = Some v"
  shows "parse_properties toDate
           (object_of (map (\<lambda>property. (underscore property, Prop property)) names)) source r
           (underscore p) =
         (if p \<in> set names then Some (if matches_At p then toDate v else v) else r (underscore p))"
proof -
  let ?kvs = "map (\<lambda>property. (underscore property, Prop property :: 'v source_property)) names"
  let ?m = "object_of ?kvs"
  have sub: "set ?m \<subseteq> set ?kvs" by (rule object_of_subset)
  have entry: "e = (underscore p, Prop p)" if "e \<in> set ?m" "fst e = underscore p" for e
  proof -
    from that(1) sub obtain q where "q \<in> set names" "e = (underscore q, Prop q)" by auto
    with that(2) only show ?thesis by auto
  qed
  have mem: "(underscore p, Prop p) \<in> set ?m \<longleftrightarrow> p \<in> set names"
  proof
    assume "(underscore p, Prop p) \<in> set ?m"
    with sub show "p \<in> set names" by auto
  next
    assume "p \<in> set names"
    then have "underscore p \<in> fst ` set ?kvs" by force
    then have "underscore p \<in> fst ` set ?m" by (simp only: object_of_keys)
    then obtain e where "e \<in> set ?m" "fst e = underscore p" by auto
    with entry show "(underscore p, Prop p) \<in> set ?m" by auto
  qed
  from parse_properties_only_name [of ?m "underscore p" p source v toDate r, OF entry assms(2)]
  show ?thesis by (simp add: mem)
qed

lemma each_parser_properties:
  "each_parser (properties_parser toDate m # ps) source r =
   each_parser ps source (parse_properties toDate m source r)"
  by (simp add: properties_parser_def)

lemma run_parsers_only_name:
  assumes only: "\<And>q. q \<in> set (concat (map parser_names qs)) \<Longrightarrow> underscore q = underscore p \<Longrightarrow> q = p"
    and "source p = Some v"
  shows "each_parser
           (map (\<lambda>q. properties_parser toDate
              (object_of (map (\<lambda>property. (underscore property, Prop property)) (parser_names q))))
            qs) source r (underscore p) =
         (if p \<in> set (concat (map parser_names qs))
          then Some (if matches_At p then toDate v else v) else r (underscore p))"
  using only
proof (induction qs arbitrary: r)
  case Nil
  then show ?case by simp
next
  case (Cons q qs)
  let ?r = "parse_properties toDate
      (object_of (map (\<lambda>property. (underscore property, Prop property)) (parser_names q))) source r"
  have 1: "?r (underscore p) =
      (if p \<in> set (parser_names q) then Some (if matches_At p then toDate v else v)
       else r (underscore p))"
    by (rule parser_only_name) (use Cons.prems assms(2) in auto)
  have 2: "each_parser
           (map (\<lambda>q. properties_parser toDate
              (object_of (map (\<lambda>property. (underscore property, Prop property)) (parser_names q))))
            qs) source ?r (underscore p) =
         (if p \<in> set (concat (map parser_names qs))
          then Some (if matches_At p then toDate v else v) else ?r (underscore p))"
    by (rule Cons.IH) (use Cons.prems in auto)
  have 3: "each_parser
           (map (\<lambda>q. properties_parser toDate
              (object_of (map (\<lambda>property. (underscore property, Prop property)) (parser_names q))))
            (q # qs)) source r =
        each_parser
           (map (\<lambda>q. properties_parser toDate
              (object_of (map (\<lambda>property. (underscore property, Prop property)) (parser_names q))))
            qs) source ?r"
    by (simp only: list.map each_parser_properties)
  show ?case unfolding 3 2 1 by simp
qed

text \<open>
  C9, as amended. With string or array specifiers \<open>parseJsonIntoRecord\<close> returns the
  record, and every field of it either holds what it held before or holds the value of
  a source property that is present in the source and whose underscored name is the
  field: converted to a \<open>Date\<close> when the property name matches \<open>/.At$/\<close> (it ends in
  \<open>At\<close> after a character that is not a line terminator), copied as it is otherwise.
  So a field none of whose source properties is present is left unchanged; and a
  present source property that is the only one named for its field is set, converted or
  copied in this way.
\<close>

theorem parseJsonIntoRecord_names:
  assumes "\<forall>p \<in> set properties. names_only p"
  shows "\<exists>r. parseJsonIntoRecord toDate underscore source record properties = Inr r \<and>
           (\<forall>k. r k = record k \<or>
                set_from toDate underscore source (concat (map parser_names properties)) k (r k)) \<and>
           (\<forall>k. (\<forall>p \<in> set (concat (map parser_names properties)).
                    underscore p = k \<longrightarrow> source p = None) \<longrightarrow> r k = record k) \<and>
           (\<forall>p v. p \<in> set (concat (map parser_names properties)) \<longrightarrow> source p = Some v \<longrightarrow>
                  (\<forall>q \<in> set (concat (map parser_names properties)).
                     underscore q = underscore p \<longrightarrow> q = p) \<longrightarrow>
                  r (underscore p) = Some (if matches_At p then toDate v else v))"
proof -
  let ?ps = "map (\<lambda>p. properties_parser toDate
      (object_of (map (\<lambda>property. (underscore property, Prop property)) (parser_names p))))
    properties"
  let ?r = "each_parser ?ps source record"
  have eq: "parseJsonIntoRecord toDate underscore source record properties = Inr ?r"
    by (simp add: parseJsonIntoRecord_def map_throwing_names_only [OF assms])
  have main: "?r k = record k \<or>
      set_from toDate underscore source (concat (map parser_names properties)) k (?r k)" for k
    using run_parsers_names [of "record" k "record" toDate underscore source "[]" properties]
    by simp
  have frame: "?r k = record k"
    if "\<forall>p \<in> set (concat (map parser_names properties)). underscore p = k \<longrightarrow> source p = None"
    for k
  proof -
    from that have "\<not> set_from toDate underscore source (concat (map parser_names properties)) k (?r k)"
      by (auto simp: set_from_def list_ex_iff split: option.splits)
    with main [of k] show ?thesis by simp
  qed
  have sets: "?r (underscore p) = Some (if matches_At p then toDate v else v)"
    if "p \<in> set (concat (map parser_names properties))" "source p = Some v"
      "\<forall>q \<in> set (concat (map parser_names properties)). underscore q = underscore p \<longrightarrow> q = p"
    for p v
    using run_parsers_only_name [of properties underscore p source v toDate "record"] that
    by simp
  from eq main frame sets show ?thesis by blast
qed

lemma snake_examples:
  "snake ''type'' = ''type''" "snake ''version'' = ''version''"
  "snake ''occurredAt'' = ''occurred_at''"
  by code_simp+

theorem parseJsonIntoRecord_names_witness:
  "parseJsonIntoRecord moment_toDate snake
     [''type'' \<mapsto> Json (JStr ''foo.bar''), ''occurredAt'' \<mapsto> Json (JStr ''2017-01-01'')]
     [''version'' \<mapsto> Json (JStr ''1.2.3'')]
     [ParserString ''type'', ParserArray [''version'', ''occurredAt'']]
   = Inr [''version'' \<mapsto> Json (JStr ''1.2.3''), ''type'' \<mapsto> Json (JStr ''foo.bar''),
          ''occurred_at'' \<mapsto> Date (JStr ''2017-01-01'')]"
proof -
  let ?source = "[''type'' \<mapsto> Json (JStr ''foo.bar''), ''occurredAt'' \<mapsto> Json (JStr ''2017-01-01'')]"
  let ?attrs = "[''version'' \<mapsto> Json (JStr ''1.2.3'')]"
  let ?props = "[ParserString ''type'', ParserArray [''version'', ''occurredAt'']]"
  have "\<forall>p \<in> set ?props. names_only (p :: jsvalue parser)" by simp
  from parseJsonIntoRecord_names [OF this, of moment_toDate snake ?source ?attrs]
  obtain r where "parseJsonIntoRecord moment_toDate snake ?source ?attrs ?props = Inr r"
    by blast
  then show ?thesis
    by (simp add: parseJsonIntoRecord_def createPropertiesParser_def properties_parser_def
        parse_properties_def set_property_def object_of_def snake_examples matches_At_def
        line_terminator_def fun_upd_twist del: snake.simps)
qed

text \<open>
  C9 as it is stated fails for a property name in which a line terminator stands before
  \<open>At\<close>: the name ends in \<open>At\<close> preceded by a character, the property is present, and
  its value is copied as it is, not converted to a \<open>Date\<close>.
\<close>

theorem parseJsonIntoRecord_At_counterexample:
  "length [CHR 0x0A, CHR ''A'', CHR ''t''] > length ''At'' \<and>
   suffix ''At'' [CHR 0x0A, CHR ''A'', CHR ''t''] \<and>
   parseJsonIntoRecord moment_toDate snake
     [[CHR 0x0A, CHR ''A'', CHR ''t''] \<mapsto> Json (JStr ''2017-01-01'')] Map.empty
     [ParserString [CHR 0x0A, CHR ''A'', CHR ''t'']]
   = Inr [[CHR 0x0A, CHR ''_'', CHR ''a'', CHR ''t''] \<mapsto> Json (JStr ''2017-01-01'')] \<and>
   moment_toDate (Json (JStr ''2017-01-01'')) \<noteq> Json (JStr ''2017-01-01'')"
proof -
  have "snake [CHR 0x0A, CHR ''A'', CHR ''t''] = [CHR 0x0A, CHR ''_'', CHR ''a'', CHR ''t'']"
    by code_simp
  then show ?thesis
    by (simp add: parseJsonIntoRecord_def createPropertiesParser_def properties_parser_def
        parse_properties_def set_property_def object_of_def matches_At_def line_terminator_def
        suffix_def del: snake.simps)
qed

section \<open>Properties of \<open>generateApiId\<close>\<close>

lemma randomString_generate_length: "length (randomString_generate rs) = length rs"
  by (simp add: randomString_generate_def)

lemma lowercase_alphanumeric_nth:
  "i < 36 \<Longrightarrow> lowercase_alphanumeric_char (lowercase_alphanumeric ! i)"
proof -
  assume "i < 36"
  then have "i \<in> set [0..<36]" by simp
  moreover have "\<forall>i \<in> set [0..<36]. lowercase_alphanumeric_char (lowercase_alphanumeric ! i)"
    by code_simp
  ultimately show ?thesis by blast
qed

lemma randomString_generate_chars:
  "c \<in> set (randomString_generate rs) \<Longrightarrow> lowercase_alphanumeric_char c"
proof -
  assume "c \<in> set (randomString_generate rs)"
  then obtain r where "c = lowercase_alphanumeric ! (r mod 36)"
    by (auto simp: randomString_generate_def lowercase_alphanumeric_def)
  then show ?thesis by (simp add: lowercase_alphanumeric_nth)
qed

lemma generateUniqueApiId_Some:
  assumes "generateUniqueApiId rnd table e k = Some s"
  shows "length s = 2 \<and> (\<forall>c \<in> set s. lowercase_alphanumeric_char c) \<and>
         fetch_participant table s e = None"
proof (rule generateUniqueApiId.raw_induct
    [where P = "\<lambda>rnd table e k s. length s = 2 \<and>
        (\<forall>c \<in> set s. lowercase_alphanumeric_char c) \<and> fetch_participant table s e = None",
      OF _ assms])
  fix f :: "(nat \<Rightarrow> nat \<times> nat) \<Rightarrow> participant list \<Rightarrow> int \<Rightarrow> nat \<Rightarrow> string option"
  fix rnd :: "nat \<Rightarrow> nat \<times> nat" and table :: "participant list" and e :: int
    and k :: nat and s :: string
  let ?new = "randomString_generate [fst (rnd k), snd (rnd k)]"
  assume IH: "\<And>rnd table e k s. f rnd table e k = Some s \<Longrightarrow>
      length s = 2 \<and> (\<forall>c \<in> set s. lowercase_alphanumeric_char c) \<and>
      fetch_participant table s e = None"
  assume step: "(let newApiId = ?new in
      case fetch_participant table newApiId e of
        None \<Rightarrow> Some newApiId
      | Some existingParticipant \<Rightarrow> f rnd table e (Suc k)) = Some s"
  show "length s = 2 \<and> (\<forall>c \<in> set s. lowercase_alphanumeric_char c) \<and>
      fetch_participant table s e = None"
  proof (cases "fetch_participant table ?new e")
    case None
    with step have "s = ?new" by (simp add: Let_def)
    with None show ?thesis
      by (auto simp: randomString_generate_length dest: randomString_generate_chars)
  next
    case (Some existing)
    with step have "f rnd table e (Suc k) = Some s" by (simp add: Let_def)
    then show ?thesis by (rule IH)
  qed
qed

text \<open>The draws end as soon as one of them is free, so the promise resolves then.\<close>

lemma generateUniqueApiId_resolves:
  assumes "fetch_participant table (randomString_generate [fst (rnd (k + n)), snd (rnd (k + n))]) e = None"
  shows "\<exists>s. generateUniqueApiId rnd table e k = Some s"
  using assms
proof (induction n arbitrary: k)
  case 0
  then show ?case
    by (subst generateUniqueApiId.simps) (simp add: Let_def)
next
  case (Suc n)
  then have "\<exists>s. generateUniqueApiId rnd table e (Suc k) = Some s" by simp
  then show ?case
    by (subst generateUniqueApiId.simps) (simp add: Let_def split: option.splits)
qed

text \<open>
  C10. \<open>generateApiId\<close> returns \<open>undefined\<close> when the participant's \<open>excursion_id\<close> is
  not set. When it returns a promise that resolves, the participant has an
  \<open>excursion_id\<close>, the value is a string of two lowercase alphanumeric characters, and
  the table holds no participant with that \<open>excursion_id\<close> and that \<open>api_id\<close>.
\<close>

theorem generateApiId_unique:
  "(excursion_id this = None \<longrightarrow> generateApiId rnd table this = Undefined) \<and>
   (\<forall>s. generateApiId rnd table this = Promise (Some s) \<longrightarrow>
      (\<exists>e. excursion_id this = Some e \<and>
           length s = 2 \<and> (\<forall>c \<in> set s. lowercase_alphanumeric_char c) \<and>
           (\<forall>p \<in> set table. \<not> (api_id p = Some s \<and> excursion_id p = Some e))))"
proof (intro conjI allI impI)
  assume "excursion_id this = None"
  then show "generateApiId rnd table this = Undefined"
    by (simp add: generateApiId_def)
next
  fix s
  assume "generateApiId rnd table this = Promise (Some s)"
  then obtain e where e: "excursion_id this = Some e"
    and run: "generateUniqueApiId rnd table e 0 = Some s"
    by (auto simp: generateApiId_def split: option.splits if_splits)
  from generateUniqueApiId_Some [OF run]
  have "length s = 2" "\<forall>c \<in> set s. lowercase_alphanumeric_char c"
    "fetch_participant table s e = None"
    by simp_all
  moreover from this(3) have "\<forall>p \<in> set table. \<not> (api_id p = Some s \<and> excursion_id p = Some e)"
    by (simp add: fetch_participant_def find_None_iff)
  ultimately show "\<exists>e. excursion_id this = Some e \<and>
      length s = 2 \<and> (\<forall>c \<in> set s. lowercase_alphanumeric_char c) \<and>
      (\<forall>p \<in> set table. \<not> (api_id p = Some s \<and> excursion_id p = Some e))"
    using e by blast
qed

theorem generateApiId_unique_witness:
  "generateApiId (\<lambda>k. (k, k + 10))
     [\<lparr>api_id = Some ''0a'', excursion_id = Some 3\<rparr>, \<lparr>api_id = Some ''1b'', excursion_id = Some 4\<rparr>]
     \<lparr>api_id = None, excursion_id = Some 3\<rparr> = Promise (Some ''1b'') \<and>
   length ''1b'' = 2 \<and> list_all lowercase_alphanumeric_char ''1b'' \<and>
   list_all (\<lambda>p. \<not> (api_id p = Some ''1b'' \<and> excursion_id p = Some 3))
     [\<lparr>api_id = Some ''0a'', excursion_id = Some 3\<rparr>, \<lparr>api_id = Some ''1b'', excursion_id = Some 4\<rparr>]"
proof -
  let ?rnd = "\<lambda>k::nat. (k, k + 10)"
  let ?table = "[\<lparr>api_id = Some ''0a'', excursion_id = Some 3\<rparr>,
                 \<lparr>api_id = Some ''1b'', excursion_id = Some 4\<rparr>]"
  let ?p = "\<lparr>api_id = None, excursion_id = Some 3\<rparr>"
  have run: "generateApiId ?rnd ?table ?p = Promise (Some ''1b'')"
    by code_simp
  from generateApiId_unique [of ?p ?rnd ?table] run
  have "length ''1b'' = 2 \<and> (\<forall>c \<in> set ''1b''. lowercase_alphanumeric_char c) \<and>
        (\<forall>p \<in> set ?table. \<not> (api_id p = Some ''1b'' \<and> excursion_id p = Some 3))"
    by simp
  with run show ?thesis by (simp add: list_all_iff)
qed

section \<open>Properties of the validation engine\<close>

lemma chain_blocked: "blocked c \<Longrightarrow> chain fs c = c"
  by (cases fs) simp_all

lemma chain_append: "chain (fs @ gs) c = chain gs (chain fs c)"
  by (induction fs arbitrary: c) (simp_all add: chain_blocked)

lemma errs_join: "errs (join c rs) = errs c @ concat (map errs rs)"
  by (simp add: join_def)

lemma errs_par: "errs (par fs c) = errs c @ concat (map (\<lambda>f. errs (f (fork c))) fs)"
  by (simp add: par_def join_def comp_def)

lemma mset_parts:
  "mset a + (\<Sum>n\<leftarrow>bs. mset (g n)) + mset m + (\<Sum>n\<leftarrow>as. mset (g n)) =
   mset (a @ concat (map g bs) @ m @ concat (map g as))"
  by (simp add: mset_concat comp_def)

subsection \<open>The \<open>valueSet\<close> flag\<close>

lemma json_get_present: "(\<exists>v. json_get j p = Some v) \<longleftrightarrow> present j p"
proof
  show "\<exists>v. json_get j p = Some v \<Longrightarrow> present j p"
  proof (induction p arbitrary: j)
    case Nil
    show ?case by (rule present_here)
  next
    case (Cons s p)
    then obtain j' where j': "child j s = Some j'" "\<exists>v. json_get j' p = Some v"
      by (auto split: option.splits)
    then have "present j' p" using Cons.IH by simp
    with j'(1) show ?case
      by (cases "(j, s)" rule: child.cases) (auto intro: present.intros split: if_splits)
  qed
  show "present j p \<Longrightarrow> \<exists>v. json_get j p = Some v"
    by (induction rule: present.induct) auto
qed

lemma valueSet_field: "cvalueSet (field body p) \<longleftrightarrow> present body p"
  using json_get_present [of body p]
  by (simp add: cvalueSet_def cvalue_def field_def root_ctx_def)

lemma required_field:
  "errs (exec (Step required) (field body p)) =
     (case json_get body p of
        None \<Rightarrow> [\<lparr>message = ''is required'', etype = ''json'', location = pointer p,
                   validator = ''required'', val = None, valueSet = False, extras = []\<rparr>]
      | Some JNull \<Rightarrow> [\<lparr>message = ''is required'', etype = ''json'', location = pointer p,
                   validator = ''required'', val = Some JNull, valueSet = True, extras = []\<rparr>]
      | Some _ \<Rightarrow> [])"
  by (simp add: required_def cvalueSet_def cvalue_def field_def root_ctx_def
      split: option.splits json.splits)

text \<open>
  C6. For every document and every path, the \<open>valueSet\<close> flag of the context of the
  field is false exactly when the path is absent from the document. A path that is
  present with the value \<open>null\<close> gives \<open>valueSet\<close> true and the value \<open>null\<close>, and
  \<open>required\<close> reports its error with \<open>valueSet: true\<close> and \<open>value: null\<close>; for a path
  that is absent \<open>required\<close> reports its error with \<open>valueSet: false\<close> and no value.
\<close>

theorem valueSet_semantics:
  "(\<not> cvalueSet (field body p) \<longleftrightarrow> \<not> present body p) \<and>
   (json_get body p = Some JNull \<longrightarrow>
      cvalueSet (field body p) \<and> cvalue (field body p) = Some JNull \<and>
      errs (exec (Step required) (field body p)) =
        [\<lparr>message = ''is required'', etype = ''json'', location = pointer p,
          validator = ''required'', val = Some JNull, valueSet = True, extras = []\<rparr>]) \<and>
   (\<not> present body p \<longrightarrow>
      cvalue (field body p) = None \<and>
      errs (exec (Step required) (field body p)) =
        [\<lparr>message = ''is required'', etype = ''json'', location = pointer p,
          validator = ''required'', val = None, valueSet = False, extras = []\<rparr>])"
proof -
  have pres: "present body p \<longleftrightarrow> json_get body p \<noteq> None"
    using json_get_present [of body p] by auto
  have "cvalue (field body p) = json_get body p"
    by (simp add: cvalue_def field_def root_ctx_def)
  then show ?thesis
    by (auto simp: valueSet_field required_field pres simp del: exec.simps)
qed

theorem valueSet_semantics_witness:
  "json_get (JObj [(''firstName'', JNull)]) [Key ''firstName''] = Some JNull \<and>
   cvalueSet (field (JObj [(''firstName'', JNull)]) [Key ''firstName'']) \<and>
   errs (exec (Step required) (field (JObj [(''firstName'', JNull)]) [Key ''firstName''])) =
     [\<lparr>message = ''is required'', etype = ''json'', location = ''/firstName'',
       validator = ''required'', val = Some JNull, valueSet = True, extras = []\<rparr>] \<and>
   \<not> present (JObj [(''firstName'', JNull)]) [Key ''version''] \<and>
   \<not> cvalueSet (field (JObj [(''firstName'', JNull)]) [Key ''version'']) \<and>
   errs (exec (Step required) (field (JObj [(''firstName'', JNull)]) [Key ''version''])) =
     [\<lparr>message = ''is required'', etype = ''json'', location = ''/version'',
       validator = ''required'', val = None, valueSet = False, extras = []\<rparr>]"
proof -
  let ?body = "JObj [(''firstName'', JNull)]"
  have 1: "json_get ?body [Key ''firstName''] = Some JNull" by simp
  have 2: "\<not> present ?body [Key ''version'']"
    by (auto elim: present.cases)
  have 3: "pointer [Key ''firstName''] = ''/firstName''" "pointer [Key ''version''] = ''/version''"
    by (simp_all add: pointer_def)
  from valueSet_semantics [of ?body "[Key ''firstName'']"] 1
  have a: "cvalueSet (field ?body [Key ''firstName'']) \<and>
      errs (exec (Step required) (field ?body [Key ''firstName''])) =
        [\<lparr>message = ''is required'', etype = ''json'', location = ''/firstName'',
          validator = ''required'', val = Some JNull, valueSet = True, extras = []\<rparr>]"
    unfolding 3 by blast
  from valueSet_semantics [of ?body "[Key ''version'']"] 2
  have b: "\<not> cvalueSet (field ?body [Key ''version'']) \<and>
      errs (exec (Step required) (field ?body [Key ''version''])) =
        [\<lparr>message = ''is required'', etype = ''json'', location = ''/version'',
          validator = ''required'', val = None, valueSet = False, extras = []\<rparr>]"
    unfolding 3 by blast
  from 1 2 a b show ?thesis by blast
qed

subsection \<open>Short-circuit\<close>

lemma blocked_after_Fail: "blocked (apply_effect (Fail f) c)"
  by (cases f) (simp add: blocked_def error_at_def)

lemma required_Fail:
  "cvalue c = None \<or> cvalue c = Some JNull \<Longrightarrow>
   required c = Fail (Failure ''required'' ''is required'' [])"
  by (auto simp: required_def)

lemma chain_required_post:
  assumes "cvalue c = None \<or> cvalue c = Some JNull"
  shows "chain (map exec (Step required # post)) c = chain (map exec [Step required]) c"
proof (cases "blocked c")
  case True
  then show ?thesis by simp
next
  case False
  have "blocked (exec (Step required) c)"
    by (simp only: exec.simps required_Fail [OF assms] blocked_after_Fail)
  then have "chain (map exec post) (exec (Step required) c) = exec (Step required) c"
    by (rule chain_blocked)
  with False show ?thesis by (simp del: exec.simps)
qed

lemma validate_required_post:
  assumes "required_fails pre p c"
  shows "exec (Validate p (pre @ Step required # post)) c =
         exec (Validate p (pre @ [Step required])) c"
proof -
  let ?c = "chain (map exec pre) (enter p c)"
  from assms have "cvalue ?c = None \<or> cvalue ?c = Some JNull"
    by (simp add: required_fails_def Let_def)
  from chain_required_post [OF this, of post] show ?thesis
    by (simp add: scoped_def chain_append del: chain.simps)
qed

lemma errs_Parallel:
  "errs (exec (Parallel ns) c) = errs c @ concat (map (\<lambda>n. errs (exec n (fork c))) ns)"
  by (simp add: errs_par comp_def)

text \<open>
  C5. When the value that \<open>required\<close> finds in a chain is missing or \<open>null\<close>, the
  steps after \<open>required\<close> in that chain are skipped: the chain leaves the context
  (errors, document, writes) as the chain without them does. In a \<open>parallel\<close> that
  holds the chain, the errors are those that were there, those of the chain cut after
  \<open>required\<close>, and all the errors each chain declared before or after it produces on
  its own.
\<close>

theorem required_short_circuit:
  "(required_fails pre p c \<longrightarrow>
      exec (Validate p (pre @ Step required # post)) c =
      exec (Validate p (pre @ [Step required])) c) \<and>
   (required_fails pre p (fork c) \<longrightarrow>
      mset (errs (exec (Parallel (before @ Validate p (pre @ Step required # post) # after)) c)) =
        mset (errs c) +
        (\<Sum>n\<leftarrow>before. mset (errs (exec n (fork c)))) +
        mset (errs (exec (Validate p (pre @ [Step required])) (fork c))) +
        (\<Sum>n\<leftarrow>after. mset (errs (exec n (fork c)))))"
proof (intro conjI impI)
  assume "required_fails pre p c"
  then show "exec (Validate p (pre @ Step required # post)) c =
      exec (Validate p (pre @ [Step required])) c"
    by (rule validate_required_post)
next
  assume "required_fails pre p (fork c)"
  then have cut: "exec (Validate p (pre @ Step required # post)) (fork c) =
      exec (Validate p (pre @ [Step required])) (fork c)"
    by (rule validate_required_post)
  have "mset (errs (exec (Parallel (before @ n # after)) c)) =
      mset (errs c) + (\<Sum>n\<leftarrow>before. mset (errs (exec n (fork c)))) +
      mset (errs (exec n (fork c))) + (\<Sum>n\<leftarrow>after. mset (errs (exec n (fork c))))" for n
    by (simp add: errs_Parallel mset_concat comp_def del: exec.simps)
  from this [of "Validate p (pre @ Step required # post)"]
  show "mset (errs (exec (Parallel (before @ Validate p (pre @ Step required # post) # after)) c)) =
      mset (errs c) + (\<Sum>n\<leftarrow>before. mset (errs (exec n (fork c)))) +
      mset (errs (exec (Validate p (pre @ [Step required])) (fork c))) +
      (\<Sum>n\<leftarrow>after. mset (errs (exec n (fork c))))"
    by (simp only: cut)
qed

theorem required_short_circuit_witness:
  "required_fails [If (\<lambda>c. False) [While isSet]] [Key ''trailHref''] (fork (root_ctx example_body)) \<and>
   exec (Validate [Key ''trailHref'']
          ([If (\<lambda>c. False) [While isSet]] @ Step required #
           [Step (type_validator ''string''),
            Step (resource (fetchTrailByHref example_validation) (Some [Key ''trailId''])
                   (trailId example_validation))]))
        (fork (root_ctx example_body)) =
   exec (Validate [Key ''trailHref''] ([If (\<lambda>c. False) [While isSet]] @ [Step required]))
        (fork (root_ctx example_body)) \<and>
   mset (map (\<lambda>e. (location e, validator e))
     (errs (exec (Parallel ([] @
        Validate [Key ''trailHref'']
          ([If (\<lambda>c. False) [While isSet]] @ Step required #
           [Step (type_validator ''string''),
            Step (resource (fetchTrailByHref example_validation) (Some [Key ''trailId''])
                   (trailId example_validation))]) #
        [Validate [Key ''name'']
           [While (\<lambda>context. cvalueSet context \<and> cvalue context \<noteq> Some JNull),
            Step (type_validator ''string'')],
         Validate [Key ''plannedAt'']
           [If (\<lambda>c. False) [While isSet, While (changed (plannedAt example_validation))],
            Step required,
            Step (type_validator ''string'')],
         Validate [Key ''themes'']
           [IfElse (themesNewOrChanged example_validation)
              (Each (\<lambda>c element i.
                 Validate [Idx i] [Step (resource (relatedTheme example_validation) None (\<lambda>r. r))]))
              (Step (\<lambda>c. Remove))]]))
        (root_ctx example_body)))) =
   mset [(''/trailHref'', ''required''), (''/name'', ''type''), (''/plannedAt'', ''required''),
         (''/themes/1'', ''resource'')]"
proof -
  let ?c = "root_ctx example_body"
  let ?pre = "[If (\<lambda>c. False) [While isSet]]"
  let ?p = "[Key ''trailHref'']"
  let ?post = "[Step (type_validator ''string''),
      Step (resource (fetchTrailByHref example_validation) (Some [Key ''trailId''])
             (trailId example_validation))]"
  let ?after = "[Validate [Key ''name'']
           [While (\<lambda>context. cvalueSet context \<and> cvalue context \<noteq> Some JNull),
            Step (type_validator ''string'')],
         Validate [Key ''plannedAt'']
           [If (\<lambda>c. False) [While isSet, While (changed (plannedAt example_validation))],
            Step required,
            Step (type_validator ''string'')],
         Validate [Key ''themes'']
           [IfElse (themesNewOrChanged example_validation)
              (Each (\<lambda>c element i.
                 Validate [Idx i] [Step (resource (relatedTheme example_validation) None (\<lambda>r. r))]))
              (Step (\<lambda>c. Remove))]]"
  let ?tag = "\<lambda>e. (location e, validator e)"
  have fails: "required_fails ?pre ?p (fork ?c)"
    by code_simp
  note cut = required_short_circuit [of ?pre ?p "fork ?c" ?post "[]" ?after,
      THEN conjunct1, rule_format, OF fails]
  note all = required_short_circuit [of ?pre ?p ?c ?post "[]" ?after,
      THEN conjunct2, rule_format, OF fails]
  have eval: "map ?tag
      (errs ?c @ concat (map (\<lambda>n. errs (exec n (fork ?c))) []) @
       errs (exec (Validate ?p (?pre @ [Step required])) (fork ?c)) @
       concat (map (\<lambda>n. errs (exec n (fork ?c))) ?after)) =
    [(''/trailHref'', ''required''), (''/name'', ''type''), (''/plannedAt'', ''required''),
     (''/themes/1'', ''resource'')]"
    by code_simp
  from all have same: "mset (errs (exec (Parallel ([] @ Validate ?p (?pre @ Step required # ?post) #
      ?after)) ?c)) =
    mset (errs ?c @ concat (map (\<lambda>n. errs (exec n (fork ?c))) []) @
       errs (exec (Validate ?p (?pre @ [Step required])) (fork ?c)) @
       concat (map (\<lambda>n. errs (exec n (fork ?c))) ?after))"
    by (simp only: mset_parts)
  have "mset (map ?tag (errs (exec (Parallel ([] @ Validate ?p (?pre @ Step required # ?post) #
      ?after)) ?c))) =
    image_mset ?tag (mset (errs (exec (Parallel ([] @
      Validate ?p (?pre @ Step required # ?post) # ?after)) ?c)))"
    by (simp only: mset_map)
  also have "\<dots> =
    image_mset ?tag (mset (errs ?c @ concat (map (\<lambda>n. errs (exec n (fork ?c))) []) @
       errs (exec (Validate ?p (?pre @ [Step required])) (fork ?c)) @
       concat (map (\<lambda>n. errs (exec n (fork ?c))) ?after)))"
    by (simp only: same)
  also have "\<dots> =
    mset (map ?tag (errs ?c @ concat (map (\<lambda>n. errs (exec n (fork ?c))) []) @
       errs (exec (Validate ?p (?pre @ [Step required])) (fork ?c)) @
       concat (map (\<lambda>n. errs (exec n (fork ?c))) ?after)))"
    by (simp only: mset_map)
  also have "\<dots> =
    mset [(''/trailHref'', ''required''), (''/name'', ''type''), (''/plannedAt'', ''required''),
          (''/themes/1'', ''resource'')]"
    by (simp only: eval)
  finally have "mset (map ?tag (errs (exec (Parallel ([] @
      Validate ?p (?pre @ Step required # ?post) # ?after)) ?c))) =
    mset [(''/trailHref'', ''required''), (''/name'', ''type''), (''/plannedAt'', ''required''),
          (''/themes/1'', ''resource'')]" .
  with fails cut show ?thesis by (simp only:)
qed

section \<open>Properties of the controllers\<close>

text \<open>
  C4. When the validation of a request gives errors, the controllers \<open>create\<close> and
  \<open>update\<close> of the installations and of the excursions return the record store as it
  was: the parsing and the save come after the \<open>await\<close> of the validation, which throws.
\<close>

theorem rejected_request_not_saved:
  "(engine body (validateInstallation (idAvailable k) False) = Inl errors \<longrightarrow>
      installations_create engine k body store = (store, Thrown errors)) \<and>
   (engine body (validateInstallation (idAvailable k) True) = Inl errors \<longrightarrow>
      installations_update engine k installation body store = (store, Thrown errors)) \<and>
   (engine body (validateExcursion (validation x) False) = Inl errors \<longrightarrow>
      excursions_create engine x body db = (db, Thrown errors)) \<and>
   (engine body (validateExcursion (validation x) True) = Inl errors \<longrightarrow>
      excursions_update engine x excursion body db = (db, Thrown errors))"
  by (simp add: installations_create_def installations_update_def excursions_create_def
      excursions_update_def)

theorem rejected_request_not_saved_witness:
  "installations_create requestBody example_installations (JObj [(''properties'', JNum 42)]) [] =
     ([], Thrown [\<lparr>message = ''must be of type object'', etype = ''json'',
                    location = ''/properties'', validator = ''type'', val = Some (JNum 42),
                    valueSet = True, extras = [(''types'', JArr [JStr ''object''])]\<rparr>]) \<and>
   installations_update requestBody example_installations (JObj [])
       (JObj [(''properties'', JNum 42)]) [] =
     ([], Thrown [\<lparr>message = ''must be of type object'', etype = ''json'',
                    location = ''/properties'', validator = ''type'', val = Some (JNum 42),
                    valueSet = True, extras = [(''types'', JArr [JStr ''object''])]\<rparr>]) \<and>
   excursions_create requestBody example_excursions (JObj [(''name'', JNum 42)]) [] =
     ([], Thrown [\<lparr>message = ''is required'', etype = ''json'', location = ''/trailHref'',
                    validator = ''required'', val = None, valueSet = False, extras = []\<rparr>,
                  \<lparr>message = ''must be of type string'', etype = ''json'', location = ''/name'',
                    validator = ''type'', val = Some (JNum 42), valueSet = True,
                    extras = [(''types'', JArr [JStr ''string''])]\<rparr>,
                  \<lparr>message = ''is required'', etype = ''json'', location = ''/plannedAt'',
                    validator = ''required'', val = None, valueSet = False, extras = []\<rparr>]) \<and>
   excursions_update requestBody example_excursions (JObj []) (JObj [(''name'', JNum 42)]) [] =
     ([], Thrown [\<lparr>message = ''must be of type string'', etype = ''json'', location = ''/name'',
                    validator = ''type'', val = Some (JNum 42), valueSet = True,
                    extras = [(''types'', JArr [JStr ''string''])]\<rparr>,
                  \<lparr>message = ''must be of type array'', etype = ''json'',
                    location = ''/zoneHrefs'', validator = ''type'', val = None,
                    valueSet = False, extras = [(''types'', JArr [JStr ''array''])]\<rparr>])"
proof -
  let ?z = "\<lparr>message = ''must be of type array'', etype = ''json'',
      location = ''/zoneHrefs'', validator = ''type'', val = None,
      valueSet = False, extras = [(''types'', JArr [JStr ''array''])]\<rparr>"
  let ?e = "\<lparr>message = ''must be of type object'', etype = ''json'',
      location = ''/properties'', validator = ''type'', val = Some (JNum 42),
      valueSet = True, extras = [(''types'', JArr [JStr ''object''])]\<rparr>"
  let ?n = "\<lparr>message = ''must be of type string'', etype = ''json'', location = ''/name'',
      validator = ''type'', val = Some (JNum 42), valueSet = True,
      extras = [(''types'', JArr [JStr ''string''])]\<rparr>"
  let ?t = "\<lparr>message = ''is required'', etype = ''json'', location = ''/trailHref'',
      validator = ''required'', val = None, valueSet = False, extras = []\<rparr>"
  let ?p = "\<lparr>message = ''is required'', etype = ''json'', location = ''/plannedAt'',
      validator = ''required'', val = None, valueSet = False, extras = []\<rparr>"
  have 1: "requestBody (JObj [(''properties'', JNum 42)])
      (validateInstallation (idAvailable example_installations) False) = Inl [?e]"
    by code_simp
  have 2: "requestBody (JObj [(''properties'', JNum 42)])
      (validateInstallation (idAvailable example_installations) True) = Inl [?e]"
    by code_simp
  have 3: "requestBody (JObj [(''name'', JNum 42)])
      (validateExcursion (validation example_excursions) False) = Inl [?t, ?n, ?p]"
    by code_simp
  have 4: "requestBody (JObj [(''name'', JNum 42)])
      (validateExcursion (validation example_excursions) True) = Inl [?n, ?z]"
    by code_simp
  have a: "installations_create requestBody example_installations
      (JObj [(''properties'', JNum 42)]) [] = ([], Thrown [?e])"
    by (rule rejected_request_not_saved [where engine = requestBody, THEN conjunct1, rule_format, OF 1])
  have b: "installations_update requestBody example_installations (JObj [])
      (JObj [(''properties'', JNum 42)]) [] = ([], Thrown [?e])"
    by (rule rejected_request_not_saved [where engine = requestBody, THEN conjunct2, THEN conjunct1, rule_format, OF 2])
  have c: "excursions_create requestBody example_excursions (JObj [(''name'', JNum 42)]) [] =
      ([], Thrown [?t, ?n, ?p])"
    by (rule rejected_request_not_saved
        [where engine = requestBody, THEN conjunct2, THEN conjunct2, THEN conjunct1, rule_format, OF 3])
  have d: "excursions_update requestBody example_excursions (JObj [])
      (JObj [(''name'', JNum 42)]) [] = ([], Thrown [?n, ?z])"
    by (rule rejected_request_not_saved
        [where engine = requestBody, THEN conjunct2, THEN conjunct2, THEN conjunct2, rule_format, OF 4])
  from a b c d show ?thesis by (intro conjI)
qed

end
